theory Spec2Isabelle
  imports Complex_Main "HOL-Library.Word" "HOL-Library.Multiset"
begin

unbundle bit_operations_syntax

section \<open>The Go library functions that main.go calls\<close>

text \<open>
  main.go is a single package; everything it does with text and addresses goes through the
  Go standard library (\<open>strings\<close>, \<open>strconv\<close>, \<open>net\<close>, \<open>encoding/binary\<close>). This
  section writes down what those functions compute on the inputs main.go gives them.
  A Go \<open>string\<close> is a byte sequence, here a \<open>char list\<close>; a \<open>uint32\<close> is a \<open>32 word\<close>.
\<close>

subsection \<open>strings\<close>

definition Contains :: "string \<Rightarrow> char \<Rightarrow> bool" where
  \<comment> \<open>\<open>strings.Contains(s, sep)\<close> for a separator of one byte\<close>
  "Contains s sep = (sep \<in> set s)"

fun Split :: "string \<Rightarrow> char \<Rightarrow> string list" where
  \<comment> \<open>\<open>strings.Split(s, sep)\<close> for a separator of one byte: the empty string gives one empty field\<close>
  "Split [] sep = [[]]"
| "Split (c # cs) sep =
     (if c = sep then [] # Split cs sep
      else (case Split cs sep of [] \<Rightarrow> [[c]] | f # fs \<Rightarrow> (c # f) # fs))"

definition spaces :: "string list" where
  \<comment> \<open>the code points for which \<open>unicode.IsSpace\<close> holds, each as its bytes in UTF-8: tab, line
      feed, vertical tab, form feed, carriage return, space, U+0085, U+00A0, U+1680,
      U+2000 to U+200A, U+2028, U+2029, U+202F, U+205F, U+3000\<close>
  "spaces =
     [[CHR 0x09], [CHR 0x0A], [CHR 0x0B], [CHR 0x0C], [CHR 0x0D], [CHR 0x20],
      [CHR 0xC2, CHR 0x85], [CHR 0xC2, CHR 0xA0],
      [CHR 0xE1, CHR 0x9A, CHR 0x80],
      [CHR 0xE2, CHR 0x80, CHR 0x80], [CHR 0xE2, CHR 0x80, CHR 0x81],
      [CHR 0xE2, CHR 0x80, CHR 0x82], [CHR 0xE2, CHR 0x80, CHR 0x83],
      [CHR 0xE2, CHR 0x80, CHR 0x84], [CHR 0xE2, CHR 0x80, CHR 0x85],
      [CHR 0xE2, CHR 0x80, CHR 0x86], [CHR 0xE2, CHR 0x80, CHR 0x87],
      [CHR 0xE2, CHR 0x80, CHR 0x88], [CHR 0xE2, CHR 0x80, CHR 0x89],
      [CHR 0xE2, CHR 0x80, CHR 0x8A],
      [CHR 0xE2, CHR 0x80, CHR 0xA8], [CHR 0xE2, CHR 0x80, CHR 0xA9],
      [CHR 0xE2, CHR 0x80, CHR 0xAF], [CHR 0xE2, CHR 0x81, CHR 0x9F],
      [CHR 0xE3, CHR 0x80, CHR 0x80]]"

definition space_at_start :: "string \<Rightarrow> nat" where
  \<comment> \<open>how many bytes the white space code point at the start of the text takes, 0 when the
      text does not start with one (a byte that starts no valid code point is not white space)\<close>
  "space_at_start s =
     (if 1 \<le> length s \<and> take 1 s \<in> set spaces then 1
      else if 2 \<le> length s \<and> take 2 s \<in> set spaces then 2
      else if 3 \<le> length s \<and> take 3 s \<in> set spaces then 3
      else 0)"

definition space_at_end :: "string \<Rightarrow> nat" where
  \<comment> \<open>the same for the code point at the end of the text\<close>
  "space_at_end s =
     (if 1 \<le> length s \<and> drop (length s - 1) s \<in> set spaces then 1
      else if 2 \<le> length s \<and> drop (length s - 2) s \<in> set spaces then 2
      else if 3 \<le> length s \<and> drop (length s - 3) s \<in> set spaces then 3
      else 0)"

function TrimLeft :: "string \<Rightarrow> string" where
  \<comment> \<open>\<open>strings.TrimLeftFunc(s, unicode.IsSpace)\<close>\<close>
  "TrimLeft s = (if space_at_start s = 0 then s else TrimLeft (drop (space_at_start s) s))"
  by pat_completeness auto

termination TrimLeft
proof (relation "measure length")
  show "wf (measure length)" by simp
next
  fix s :: string
  assume "space_at_start s \<noteq> 0"
  moreover have "space_at_start s \<le> length s" by (auto simp: space_at_start_def)
  ultimately show "(drop (space_at_start s) s, s) \<in> measure length" by simp
qed

function TrimRight :: "string \<Rightarrow> string" where
  \<comment> \<open>\<open>strings.TrimRightFunc(s, unicode.IsSpace)\<close>\<close>
  "TrimRight s = (if space_at_end s = 0 then s else TrimRight (take (length s - space_at_end s) s))"
  by pat_completeness auto

termination TrimRight
proof (relation "measure length")
  show "wf (measure length)" by simp
next
  fix s :: string
  assume "space_at_end s \<noteq> 0"
  moreover have "space_at_end s \<le> length s" by (auto simp: space_at_end_def)
  ultimately show "(take (length s - space_at_end s) s, s) \<in> measure length" by simp
qed

declare TrimLeft.simps [simp del] TrimRight.simps [simp del]

definition TrimSpace :: "string \<Rightarrow> string" where
  \<comment> \<open>\<open>strings.TrimSpace\<close>: all leading and trailing white space removed, as Unicode defines
      it. (Go's loops over ASCII bytes are a fast path to the same result.)\<close>
  "TrimSpace s = TrimRight (TrimLeft s)"

subsection \<open>Decimal digits\<close>

definition isDigit :: "char \<Rightarrow> bool" where
  "isDigit c = (48 \<le> (of_char c :: nat) \<and> (of_char c :: nat) \<le> 57)"

definition digitVal :: "char \<Rightarrow> nat" where
  "digitVal c = of_char c - 48"

definition digits :: string where
  "digits = ''0123456789''"

definition appendDecimal :: "8 word \<Rightarrow> string" where
  \<comment> \<open>the decimal text of one byte, as \<open>net/netip\<close> prints an octet\<close>
  "appendDecimal x =
     (let n = unat x in
        (if 100 \<le> n then [digits ! (n div 100)] else []) @
        (if 10 \<le> n then [digits ! (n div 10 mod 10)] else []) @
        [digits ! (n mod 10)])"

fun dtoi_loop :: "nat \<Rightarrow> nat \<Rightarrow> string \<Rightarrow> nat \<times> nat \<times> bool" where
  \<comment> \<open>the loop of \<open>net.dtoi\<close>: value so far, bytes consumed, rest of the text\<close>
  "dtoi_loop n i [] = (if i = 0 then (0, 0, False) else (n, i, True))"
| "dtoi_loop n i (c # cs) =
     (if isDigit c then
        (let n' = n * 10 + digitVal c in
         if 16777215 \<le> n' then (16777215, i, False) else dtoi_loop n' (Suc i) cs)
      else if i = 0 then (0, 0, False) else (n, i, True))"

definition dtoi :: "string \<Rightarrow> nat \<times> nat \<times> bool" where
  \<comment> \<open>\<open>net.dtoi(s)\<close>: the decimal number at the start of \<open>s\<close>, how many bytes it took, and
      whether there was one (and it stayed below \<open>0xFFFFFF\<close>)\<close>
  "dtoi s = dtoi_loop 0 0 s"

subsection \<open>net: addresses\<close>

text \<open>
  \<open>netip.ParseAddr\<close> looks for the first \<open>.\<close>, \<open>:\<close> or \<open>%\<close> of the text: a \<open>.\<close> sends it
  to the IPv4 parser, a \<open>:\<close> to the IPv6 parser, a \<open>%\<close> (or none of the three) is an error.
  The IPv4 parser is modelled in full: four fields separated by \<open>.\<close>, each one to three
  digits, at most 255, with no leading zero on a field of more than one digit.
  The IPv6 parser is not modelled: it is a parameter \<open>p6\<close> of everything below, \<open>p6 s\<close>
  being the 128-bit address when \<open>s\<close> is an IPv6 literal without zone that Go accepts, and
  \<open>None\<close> otherwise (\<open>net.ParseIP\<close> and \<open>net.ParseCIDR\<close> both refuse a zone).
\<close>

type_synonym ipv6_parser = "string \<Rightarrow> 128 word option"

datatype Addr = V4 "32 word" | V6 "128 word"

fun octet_loop :: "nat \<Rightarrow> nat \<Rightarrow> string \<Rightarrow> nat option" where
  \<comment> \<open>one field of \<open>parseIPv4Fields\<close>: value so far, digits so far, rest of the field\<close>
  "octet_loop val digLen [] = (if digLen = 0 then None else Some val)"
| "octet_loop val digLen (c # cs) =
     (if isDigit c then
        (if digLen = 1 \<and> val = 0 then None
         else (let val' = val * 10 + digitVal c in
               if 255 < val' then None else octet_loop val' (Suc digLen) cs))
      else None)"

definition octet :: "string \<Rightarrow> 8 word option" where
  "octet f = map_option of_nat (octet_loop 0 0 f)"

definition AddrFrom4 :: "8 word \<Rightarrow> 8 word \<Rightarrow> 8 word \<Rightarrow> 8 word \<Rightarrow> 32 word" where
  \<comment> \<open>four bytes, most significant first\<close>
  "AddrFrom4 a b c d =
     push_bit 24 (ucast a) OR push_bit 16 (ucast b) OR push_bit 8 (ucast c) OR ucast d"

definition parseIPv4 :: "string \<Rightarrow> 32 word option" where
  "parseIPv4 s =
     (case Split s CHR ''.'' of
        [f0, f1, f2, f3] \<Rightarrow>
          (case (octet f0, octet f1, octet f2, octet f3) of
             (Some a, Some b, Some c, Some d) \<Rightarrow> Some (AddrFrom4 a b c d)
           | _ \<Rightarrow> None)
      | _ \<Rightarrow> None)"

definition ParseAddr :: "ipv6_parser \<Rightarrow> string \<Rightarrow> Addr option" where
  "ParseAddr p6 s =
     (case dropWhile (\<lambda>c. c \<noteq> CHR ''.'' \<and> c \<noteq> CHR '':'' \<and> c \<noteq> CHR ''%'') s of
        [] \<Rightarrow> None
      | c # _ \<Rightarrow>
          if c = CHR ''.'' then map_option V4 (parseIPv4 s)
          else if c = CHR '':'' then map_option V6 (p6 s)
          else None)"

text \<open>
  A \<open>net.IP\<close> (and a \<open>net.IPMask\<close>) is a byte slice: \<open>nil\<close>, four bytes or sixteen bytes.
  The bytes are kept as one word, most significant byte first, which is how
  \<open>binary.BigEndian\<close> reads them.
\<close>

datatype IP = IPnil | IP4 "32 word" | IP16 "128 word"

definition As16 :: "Addr \<Rightarrow> 128 word" where
  \<comment> \<open>an IPv4 address becomes the IPv4-mapped IPv6 address \<open>::ffff:a.b.c.d\<close>\<close>
  "As16 a = (case a of V4 w \<Rightarrow> push_bit 32 (mask 16) OR ucast w | V6 v \<Rightarrow> v)"

definition ParseIP :: "ipv6_parser \<Rightarrow> string \<Rightarrow> IP" where
  \<comment> \<open>\<open>net.ParseIP\<close>: sixteen bytes, or \<open>nil\<close> when the text is not an address\<close>
  "ParseIP p6 s = (case ParseAddr p6 s of None \<Rightarrow> IPnil | Some a \<Rightarrow> IP16 (As16 a))"

definition To4 :: "IP \<Rightarrow> IP" where
  \<comment> \<open>\<open>ip.To4()\<close>: the last four bytes of an IPv4-mapped address (ten zero bytes, then
      \<open>0xff 0xff\<close>), \<open>nil\<close> for any other sixteen bytes\<close>
  "To4 ip =
     (case ip of
        IPnil \<Rightarrow> IPnil
      | IP4 w \<Rightarrow> IP4 w
      | IP16 v \<Rightarrow> if drop_bit 32 v = mask 16 then IP4 (ucast v) else IPnil)"

definition Uint32 :: "IP \<Rightarrow> 32 word option" where
  \<comment> \<open>\<open>binary.BigEndian.Uint32(b)\<close> reads the first four bytes; on a slice shorter than four
      bytes the index check panics, which is \<open>None\<close> here\<close>
  "Uint32 b =
     (case b of IPnil \<Rightarrow> None | IP4 w \<Rightarrow> Some w | IP16 v \<Rightarrow> Some (ucast (drop_bit 96 v)))"

definition dotted :: "8 word \<Rightarrow> 8 word \<Rightarrow> 8 word \<Rightarrow> 8 word \<Rightarrow> string" where
  \<comment> \<open>the text \<open>a.b.c.d\<close> of four bytes, each in decimal\<close>
  "dotted a b c d =
     appendDecimal a @ ''.'' @ appendDecimal b @ ''.'' @ appendDecimal c @ ''.'' @ appendDecimal d"

definition IP_String :: "32 word \<Rightarrow> string" where
  \<comment> \<open>\<open>ip := make(net.IP, 4); binary.BigEndian.PutUint32(ip, i); ip.String()\<close>: the dotted
      decimal text of the four bytes of \<open>i\<close>, most significant first\<close>
  "IP_String i =
     dotted (ucast (drop_bit 24 i)) (ucast (drop_bit 16 i)) (ucast (drop_bit 8 i)) (ucast i)"

subsection \<open>net: networks in CIDR notation\<close>

record IPNet =
  IP :: IP
  Mask :: IP

definition cut_slash :: "string \<Rightarrow> (string \<times> string) option" where
  \<comment> \<open>\<open>i := IndexByteString(s, '/'); addr, mask := s[:i], s[i+1:]\<close>\<close>
  "cut_slash s =
     (if CHR ''/'' \<in> set s
      then Some (takeWhile (\<lambda>c. c \<noteq> CHR ''/'') s, tl (dropWhile (\<lambda>c. c \<noteq> CHR ''/'') s))
      else None)"

definition BitLen :: "Addr \<Rightarrow> nat" where
  "BitLen a = (case a of V4 _ \<Rightarrow> 32 | V6 _ \<Rightarrow> 128)"

definition parse_prefix :: "ipv6_parser \<Rightarrow> string \<Rightarrow> (Addr \<times> nat) option" where
  \<comment> \<open>the checks of \<open>net.ParseCIDR\<close>: the address before the first \<open>/\<close>, and after it a
      decimal prefix length that takes the whole rest and is at most the address's bit length\<close>
  "parse_prefix p6 s =
     (case cut_slash s of
        None \<Rightarrow> None
      | Some (addr, maskText) \<Rightarrow>
          (case ParseAddr p6 addr of
             None \<Rightarrow> None
           | Some ipAddr \<Rightarrow>
               (case dtoi maskText of
                  (n, i, ok) \<Rightarrow>
                    if \<not> ok \<or> i \<noteq> length maskText \<or> BitLen ipAddr < n then None
                    else Some (ipAddr, n))))"

definition CIDRMask32 :: "nat \<Rightarrow> 32 word" where
  \<comment> \<open>\<open>net.CIDRMask(ones, 32)\<close>: \<open>ones\<close> one-bits followed by zero-bits\<close>
  "CIDRMask32 ones = NOT (mask (32 - ones))"

definition CIDRMask128 :: "nat \<Rightarrow> 128 word" where
  "CIDRMask128 ones = NOT (mask (128 - ones))"

definition ParseCIDR :: "ipv6_parser \<Rightarrow> string \<Rightarrow> IPNet option" where
  \<comment> \<open>the second result of \<open>net.ParseCIDR\<close>, the network: its address is the parsed address
      with the host bits cleared; four bytes each for dotted text, sixteen for IPv6 text\<close>
  "ParseCIDR p6 s =
     (case parse_prefix p6 s of
        None \<Rightarrow> None
      | Some (V4 w, n) \<Rightarrow> Some \<lparr>IP = IP4 (w AND CIDRMask32 n), Mask = IP4 (CIDRMask32 n)\<rparr>
      | Some (V6 v, n) \<Rightarrow> Some \<lparr>IP = IP16 (v AND CIDRMask128 n), Mask = IP16 (CIDRMask128 n)\<rparr>)"

section \<open>main.go: expanding one line of the address list\<close>

text \<open>
  A call of main.go returns, panics, or never returns. The expanders return Go's pair of a
  slice and an error; what they write to standard error is returned beside it.
\<close>

datatype panic = Panicf_not_a_valid_block | index_out_of_range

datatype 'a outcome = Returns 'a | Panics panic | Diverges

datatype error = ParseError string

subsection \<open>parseCIDRNetwork\<close>

function cidr_loop :: "32 word \<Rightarrow> 32 word \<Rightarrow> string list \<Rightarrow> string list" where
  \<comment> \<open>\<open>for i := start; i < end; i++ { addresses = append(addresses, ip.String()) }\<close>\<close>
  "cidr_loop i stop addresses =
     (if i < stop then cidr_loop (i + 1) stop (addresses @ [IP_String i]) else addresses)"
  by pat_completeness auto

termination cidr_loop
proof (relation "measure (\<lambda>(i, stop, addresses). unat stop - unat i)")
  show "wf (measure (\<lambda>(i, stop, addresses). unat stop - unat i))" by simp
next
  fix i stop :: "32 word" and addresses :: "string list"
  assume "i < stop"
  then have below: "unat i < unat stop" by (simp add: word_less_nat_alt)
  moreover have "unat stop < 2 ^ 32" using unsigned_less [of stop] by simp
  ultimately have "unat i + 1 < 2 ^ 32" by simp
  then have "unat (i + 1) = Suc (unat i)" by (simp add: unat_word_ariths)
  with below show "((i + 1, stop, addresses @ [IP_String i]), (i, stop, addresses))
      \<in> measure (\<lambda>(i, stop, addresses). unat stop - unat i)" by simp
qed

declare cidr_loop.simps [simp del]

definition parseCIDRNetwork :: "ipv6_parser \<Rightarrow> string \<Rightarrow> (string list \<times> error option) outcome" where
  "parseCIDRNetwork p6 ipRange =
     (case ParseCIDR p6 ipRange of
        None \<Rightarrow> Returns ([], Some (ParseError ipRange))
      | Some ipv4Net \<Rightarrow>
          (case Uint32 (Mask ipv4Net) of
             None \<Rightarrow> Panics index_out_of_range
           | Some msk \<Rightarrow>
               (case Uint32 (IP ipv4Net) of
                  None \<Rightarrow> Panics index_out_of_range
                | Some start \<Rightarrow>
                    (let stop = (start AND msk) OR (msk XOR 0xffffffff)
                     in Returns (cidr_loop start stop [], None)))))"

subsection \<open>parseNetworkBlock\<close>

text \<open>
  The loop of parseNetworkBlock compares with \<open>i <= end\<close> and increments a \<open>uint32\<close>, which
  wraps around. Whether it ends depends on \<open>end\<close>, so it is a partial function: \<open>None\<close> is
  the loop that never exits.
\<close>

partial_function (option) block_loop :: "32 word \<Rightarrow> 32 word \<Rightarrow> string list \<Rightarrow> string list option" where
  \<comment> \<open>\<open>for i := start; i <= end; i++ { addresses = append(addresses, ip.String()) }\<close>\<close>
  "block_loop i stop addresses =
     (if i \<le> stop then block_loop (i + 1) stop (addresses @ [IP_String i]) else Some addresses)"

definition parseNetworkBlock :: "ipv6_parser \<Rightarrow> string \<Rightarrow> (string list \<times> error option) outcome" where
  "parseNetworkBlock p6 ipBlock =
     (let block = TrimSpace ipBlock;
          edges = Split block CHR ''-''
      in if length edges \<noteq> 2 then Panics Panicf_not_a_valid_block
         else
           (case Uint32 (To4 (ParseIP p6 (edges ! 0))) of
              None \<Rightarrow> Panics index_out_of_range
            | Some start \<Rightarrow>
                (case Uint32 (To4 (ParseIP p6 (edges ! 1))) of
                   None \<Rightarrow> Panics index_out_of_range
                 | Some stop \<Rightarrow>
                     (case block_loop start stop [] of
                        None \<Rightarrow> Diverges
                      | Some addresses \<Rightarrow> Returns (addresses, None)))))"

subsection \<open>parseAddresses\<close>

datatype log_line =
    Unable_to_parse string  \<comment> \<open>\<open>ErrorLogger.Printf("Unable to parse \"%s\". Skipping...\n", address)\<close>\<close>
  | Println error  \<comment> \<open>\<open>println(err.Error())\<close>\<close>

definition skipping :: "string \<Rightarrow> error option \<Rightarrow> log_line list" where
  \<comment> \<open>\<open>if err != nil { ErrorLogger.Printf(...); err = nil }\<close>\<close>
  "skipping address err = (case err of None \<Rightarrow> [] | Some _ \<Rightarrow> [Unable_to_parse address])"

definition parseAddresses ::
    "ipv6_parser \<Rightarrow> string \<Rightarrow> (string list \<times> error option \<times> log_line list) outcome" where
  \<comment> \<open>the result is \<open>(parsedRange, nil)\<close> and the lines written to standard error\<close>
  "parseAddresses p6 address =
     (if Contains address CHR ''/'' then
        (case parseCIDRNetwork p6 address of
           Returns (parsedRange, err) \<Rightarrow> Returns (parsedRange, None, skipping address err)
         | Panics p \<Rightarrow> Panics p
         | Diverges \<Rightarrow> Diverges)
      else if Contains address CHR ''-'' then
        (case parseNetworkBlock p6 address of
           Returns (parsedRange, err) \<Rightarrow>
             Returns (parsedRange, None,
               (case err of None \<Rightarrow> [] | Some e \<Rightarrow> [Println e]) @ skipping address err)
         | Panics p \<Rightarrow> Panics p
         | Diverges \<Rightarrow> Diverges)
      else Returns ([address], None, skipping address None))"

subsection \<open>getAddressesFromFile and getAddressesFromStdin\<close>

fun collect ::
    "ipv6_parser \<Rightarrow> string list \<Rightarrow> string list \<Rightarrow> log_line list \<Rightarrow>
     (string list \<times> log_line list) outcome" where
  \<comment> \<open>the loop of both readers, over the lines still to read:
      \<open>parsedAddresses, _ := parseAddresses(line); addresses = append(addresses, parsedAddresses...)\<close>.
      A panic in parseAddresses is not recovered anywhere, so it ends the loop and the process.\<close>
  "collect p6 [] addresses stderr = Returns (addresses, stderr)"
| "collect p6 (line # rest) addresses stderr =
     (case parseAddresses p6 line of
        Returns (parsedAddresses, _, written) \<Rightarrow>
          collect p6 rest (addresses @ parsedAddresses) (stderr @ written)
      | Panics p \<Rightarrow> Panics p
      | Diverges \<Rightarrow> Diverges)"

datatype read_error = ReadFile_failed

definition getAddressesFromFile ::
    "ipv6_parser \<Rightarrow> string option \<Rightarrow> (string list \<times> read_error option \<times> log_line list) outcome" where
  \<comment> \<open>the second argument is what \<open>os.ReadFile(filename)\<close> gives: the file's bytes, or \<open>None\<close>
      when it cannot be read\<close>
  "getAddressesFromFile p6 file =
     (case file of
        None \<Rightarrow> Returns ([], Some ReadFile_failed, [])
      | Some f \<Rightarrow>
          (case collect p6 (Split f (CHR 0x0A)) [] [] of
             Returns (addresses, stderr) \<Rightarrow> Returns (addresses, None, stderr)
           | Panics p \<Rightarrow> Panics p
           | Diverges \<Rightarrow> Diverges))"

definition getAddressesFromStdin ::
    "ipv6_parser \<Rightarrow> string list \<Rightarrow> (string list \<times> read_error option \<times> log_line list) outcome" where
  \<comment> \<open>the second argument is the sequence of lines \<open>sc.Scan()\<close> yields, each without its line end\<close>
  "getAddressesFromStdin p6 scanned =
     (case collect p6 scanned [] [] of
        Returns (addresses, stderr) \<Rightarrow> Returns (addresses, None, stderr)
      | Panics p \<Rightarrow> Panics p
      | Diverges \<Rightarrow> Diverges)"

section \<open>main.go: the accepted status codes\<close>

subsection \<open>strconv.Atoi\<close>

fun decimal :: "nat \<Rightarrow> string \<Rightarrow> nat option" where
  \<comment> \<open>the value of a text of decimal digits, \<open>None\<close> when a byte is not a digit\<close>
  "decimal n [] = Some n"
| "decimal n (c # cs) = (if isDigit c then decimal (n * 10 + digitVal c) cs else None)"

definition Atoi :: "string \<Rightarrow> int option" where
  \<comment> \<open>\<open>strconv.Atoi\<close> with a 64-bit \<open>int\<close>: an optional sign, then one or more decimal digits
      and nothing else; a value outside \<open>int64\<close> is an error too. \<open>None\<close> is \<open>err != nil\<close>.\<close>
  "Atoi s =
     (let neg = (take 1 s = ''-'');
          body = (if take 1 s = ''-'' \<or> take 1 s = ''+'' then drop 1 s else s)
      in if body = [] then None
         else (case decimal 0 body of
                 None \<Rightarrow> None
               | Some n \<Rightarrow>
                   if neg then (if n \<le> 2 ^ 63 then Some (- int n) else None)
                   else (if n < 2 ^ 63 then Some (int n) else None)))"

subsection \<open>The loop of main over the \<open>-s\<close> flag\<close>

type_synonym status_codes = "int \<rightharpoonup> bool"

fun valid_codes_loop :: "string list \<Rightarrow> status_codes \<Rightarrow> status_codes" where
  \<comment> \<open>\<open>code, err := strconv.Atoi(strCode); if err == nil { ValidStatusCodes[code] = true }\<close>\<close>
  "valid_codes_loop [] ValidStatusCodes = ValidStatusCodes"
| "valid_codes_loop (strCode # rest) ValidStatusCodes =
     (case Atoi strCode of
        Some code \<Rightarrow> valid_codes_loop rest (ValidStatusCodes(code \<mapsto> True))
      | None \<Rightarrow> valid_codes_loop rest ValidStatusCodes)"

definition main_ValidStatusCodes :: "string \<Rightarrow> status_codes" where
  \<comment> \<open>\<open>ValidStatusCodes\<close> after lines 78 to 83 of main, from the map \<open>init\<close> made\<close>
  "main_ValidStatusCodes validStatusCodes =
     valid_codes_loop (Split validStatusCodes CHR '','') Map.empty"

definition accepted :: "status_codes \<Rightarrow> int \<Rightarrow> bool" where
  \<comment> \<open>\<open>ValidStatusCodes[statusCode]\<close>: a key that is not in a Go map reads as \<open>false\<close>\<close>
  "accepted ValidStatusCodes statusCode =
     (case ValidStatusCodes statusCode of None \<Rightarrow> False | Some b \<Rightarrow> b)"

section \<open>main.go: one request\<close>

text \<open>
  The network is not part of the program. What \<open>http.NewRequest\<close> and \<open>Client.Do\<close> answer is
  a parameter of the model: whether the URL text parses, and for each request either the
  error of the transport (a timeout among them) or the response, whose body may fail to read.
\<close>

record Request =
  req_Method :: string
  req_URL :: string
  req_Host :: string
  req_Header :: "string \<rightharpoonup> string"

datatype do_error = Timeout | Transport_failure

record Response =
  StatusCode :: int
  Body :: "string option"  \<comment> \<open>\<open>ioutil.ReadAll(response.Body)\<close>: \<open>None\<close> when reading fails\<close>

record world =
  url_parses :: "string \<Rightarrow> bool"
  Client_Do :: "Request \<Rightarrow> do_error + Response"

datatype request_error =
    NewRequest_failed
  | Do_failed do_error
  | server_error int  \<comment> \<open>\<open>fmt.Errorf("server error: status %d", response.StatusCode)\<close>\<close>
  | ReadAll_failed

definition user_agent :: string where
  "user_agent = ''Mozilla/5.0 (X11; Linux x86_64) AppleWebKit/537.36 (KHTML, like Gecko) Chrome/51.0.2704.103 Safari/537.36''"

definition doRequest ::
    "world \<Rightarrow> status_codes \<Rightarrow> string \<Rightarrow> string \<Rightarrow> string \<Rightarrow> string \<Rightarrow>
     (request_error + string) \<times> Request list" where
  \<comment> \<open>the result of doRequest and the requests it handed to \<open>Client.Do\<close> (none or one).
      \<open>http.NewRequest\<close> fills \<open>req.Host\<close> from the URL; doRequest overwrites it with \<open>vhost\<close>.\<close>
  "doRequest w ValidStatusCodes method u vhost cookieString =
     (if \<not> url_parses w u then (Inl NewRequest_failed, [])
      else
        (let req0 = \<lparr>req_Method = method, req_URL = u, req_Host = [], req_Header = Map.empty\<rparr>;
             req1 = req0\<lparr>req_Header := (req_Header req0)(''User-Agent'' \<mapsto> user_agent)\<rparr>;
             req2 = (if 0 < length cookieString
                     then req1\<lparr>req_Header := (req_Header req1)(''Cookie'' \<mapsto> cookieString)\<rparr>
                     else req1);
             req = req2\<lparr>req_Host := vhost\<rparr>
         in (case Client_Do w req of
               Inl err \<Rightarrow> (Inl (Do_failed err), [req])
             | Inr response \<Rightarrow>
                 (let statusCode = StatusCode response
                  in if 300 \<le> statusCode \<and> \<not> accepted ValidStatusCodes statusCode
                     then (Inl (server_error statusCode), [req])
                     else (case Body response of
                             None \<Rightarrow> (Inl ReadAll_failed, [req])
                           | Some bodyBytes \<Rightarrow> (Inr bodyBytes, [req]))))))"

section \<open>main.go: one candidate, and all of them\<close>

record URL =
  Scheme :: string
  Host :: string
  Path :: string
  RawQuery :: string

definition URL_String :: "URL \<Rightarrow> string" where
  \<comment> \<open>\<open>u.String()\<close> for a URL with a scheme and a host, no user, no fragment, and a path and
      query that need no escaping\<close>
  "URL_String u =
     Scheme u @ ''://'' @ Host u @ Path u @ (if RawQuery u = [] then [] else ''?'' @ RawQuery u)"

type_synonym output_line = "string \<times> real"
  \<comment> \<open>\<open>fmt.Printf("%-17s%.2f%%\n", address, similarity*100)\<close>: the address and the percentage\<close>

definition performTest ::
    "world \<Rightarrow> status_codes \<Rightarrow> string \<Rightarrow> URL \<Rightarrow> (string \<Rightarrow> string \<Rightarrow> real) \<Rightarrow> string \<Rightarrow> string \<Rightarrow>
     output_line list \<times> log_line list \<times> Request list" where
  \<comment> \<open>what one goroutine prints on standard output, what it writes to standard error, and the
      requests it sent. \<open>u\<close> is passed by value: the assignment to \<open>u.Host\<close> changes the
      goroutine's own copy.\<close>
  "performTest w ValidStatusCodes originalBody u comparator address cookieString =
     (let vhost = Host u;
          u' = u\<lparr>Host := address\<rparr>
      in (case doRequest w ValidStatusCodes ''GET'' (URL_String u') vhost cookieString of
            (Inl err, sent) \<Rightarrow> ([], [], sent)
          | (Inr checkedBody, sent) \<Rightarrow>
              ([(address, comparator checkedBody originalBody * 100)], [], sent)))"

definition main_probes ::
    "world \<Rightarrow> status_codes \<Rightarrow> string \<Rightarrow> URL \<Rightarrow> (string \<Rightarrow> string \<Rightarrow> real) \<Rightarrow> string list \<Rightarrow> string \<Rightarrow>
     (output_line list \<times> log_line list \<times> Request list) list" where
  \<comment> \<open>\<open>for _, address := range addresses { go performTest(originalBody, *u, ...) }\<close>: one
      goroutine per address, each with its own copy of \<open>*u\<close>; here what each one did, in the
      order of the addresses\<close>
  "main_probes w ValidStatusCodes originalBody u comparator addresses cookieString =
     map (\<lambda>address. performTest w ValidStatusCodes originalBody u comparator address cookieString)
       addresses"

definition printed ::
    "(output_line list \<times> log_line list \<times> Request list) list \<Rightarrow> output_line multiset" where
  \<comment> \<open>the lines on standard output once \<open>wg.Wait()\<close> returns; the goroutines finish in any
      order, so the lines are a multiset\<close>
  "printed rs = mset (concat (map fst rs))"


section \<open>The similarity of two bodies\<close>

text \<open>
  Modelled from the spec: the comparator main.go builds, \<open>metrics.NewSorensenDice()\<close> of
  \<open>github.com/adrg/strutil\<close> with \<open>CaseSensitive = true\<close> and \<open>NgramSize = 8\<close>, and
  \<open>strutil.Similarity\<close> that performTest calls with it, are a dependency whose code is not
  among the sources. The definitions follow section 4.3 of the specification: \<open>G(x)\<close> is the
  multiset of all contiguous 8-character substrings of \<open>x\<close>, empty when \<open>x\<close> is shorter than
  8; the similarity is \<open>2 |G(A) \<inter> G(B)| / (|G(A)| + |G(B)|)\<close> with the multiset intersection,
  and \<open>0\<close> when both multisets are empty.
\<close>

definition ngrams :: "nat \<Rightarrow> string \<Rightarrow> string list" where
  \<comment> \<open>Modelled from the spec: the contiguous substrings of length \<open>n\<close>, in order; none when
      the text is shorter than \<open>n\<close>\<close>
  "ngrams n x = (if length x < n then [] else map (\<lambda>i. take n (drop i x)) [0..<Suc (length x - n)])"

definition score :: "string \<Rightarrow> string \<Rightarrow> real" where
  \<comment> \<open>Modelled from the spec: the Sorensen-Dice coefficient of the 8-grams\<close>
  "score a b =
     (let A = mset (ngrams 8 a);
          B = mset (ngrams 8 b);
          total = size A + size B
      in if total = 0 then 0 else 2 * real (size (A \<inter># B)) / real total)"

section \<open>Inputs for the examples\<close>

definition no_ipv6 :: ipv6_parser where
  \<comment> \<open>an IPv6 parser for the examples, none of which holds a \<open>:\<close>\<close>
  "no_ipv6 s = None"

definition example_world :: world where
  \<comment> \<open>one origin that answers, one address that answers 403, one that refuses the connection;
      every other address times out\<close>
  "example_world =
     \<lparr>url_parses = (\<lambda>u. True),
      Client_Do = (\<lambda>req.
        if req_URL req = ''https://10.0.0.1/'' then Inr \<lparr>StatusCode = 200, Body = Some ''origin''\<rparr>
        else if req_URL req = ''https://10.0.0.2/'' then Inr \<lparr>StatusCode = 403, Body = Some ''denied''\<rparr>
        else if req_URL req = ''https://10.0.0.3/'' then Inl Transport_failure
        else Inl Timeout)\<rparr>"

definition example_url :: URL where
  "example_url = \<lparr>Scheme = ''https'', Host = ''example.com'', Path = ''/'', RawQuery = []\<rparr>"

definition same_body :: "string \<Rightarrow> string \<Rightarrow> real" where
  \<comment> \<open>a comparator for the examples: 1 for equal bodies, 0 otherwise\<close>
  "same_body a b = (if a = b then 1 else 0)"

section \<open>Evaluating the model\<close>

lemmas trim_defs = TrimSpace_def TrimLeft.simps TrimRight.simps space_at_start_def
  space_at_end_def spaces_def

lemmas go_defs = Contains_def trim_defs isDigit_def digitVal_def digits_def
  appendDecimal_def dtoi_def octet_def AddrFrom4_def parseIPv4_def ParseAddr_def As16_def
  ParseIP_def To4_def Uint32_def dotted_def IP_String_def cut_slash_def BitLen_def parse_prefix_def
  CIDRMask32_def CIDRMask128_def ParseCIDR_def mask_numeral

lemmas text_defs = Contains_def trim_defs

lemma last_addr: "Uint32 (To4 (ParseIP p6 ''255.255.255.255'')) = Some (- 1)"
  by (simp add: go_defs)

lemma addr_10_0_0_1: "Uint32 (To4 (ParseIP p6 ''10.0.0.1'')) = Some 0x0A000001"
  by (simp add: go_defs)

lemma addr_10_0_0_3: "Uint32 (To4 (ParseIP p6 ''10.0.0.3'')) = Some 0x0A000003"
  by (simp add: go_defs)

lemma addr_255_255_255_254: "Uint32 (To4 (ParseIP p6 ''255.255.255.254'')) = Some (- 2)"
  by (simp add: go_defs)

section \<open>The loop of parseCIDRNetwork\<close>

lemma unat_succ_below: "i < stop \<Longrightarrow> unat (i + 1) = Suc (unat i)" for i stop :: "32 word"
proof -
  assume "i < stop"
  then have "unat i < unat stop" by (simp add: word_less_nat_alt)
  moreover have "unat stop < 2 ^ 32" using unsigned_less [of stop] by simp
  ultimately have "unat i + 1 < 2 ^ 32" by simp
  then show ?thesis by (simp add: unat_word_ariths)
qed

lemma cidr_loop_eq:
  "cidr_loop i stop acc = acc @ map (\<lambda>k. IP_String (i + of_nat k)) [0..<unat stop - unat i]"
proof (induction i stop acc rule: cidr_loop.induct)
  case (1 i stop acc)
  show ?case
  proof (cases "i < stop")
    case True
    then have lt: "unat i < unat stop" by (simp add: word_less_nat_alt)
    have s: "unat (i + 1) = Suc (unat i)" using True by (rule unat_succ_below)
    have len: "unat stop - unat i = Suc (unat stop - unat (i + 1))" using lt s by simp
    have "cidr_loop i stop acc = cidr_loop (i + 1) stop (acc @ [IP_String i])"
      using True by (simp add: cidr_loop.simps)
    also have "\<dots> = (acc @ [IP_String i]) @
        map (\<lambda>k. IP_String (i + 1 + of_nat k)) [0..<unat stop - unat (i + 1)]"
      using True by (rule "1.IH")
    also have "\<dots> = acc @ map (\<lambda>k. IP_String (i + of_nat k)) [0..<unat stop - unat i]"
      unfolding len by (simp add: upt_conv_Cons map_Suc_upt [symmetric] del: upt_Suc add: ac_simps)
    finally show ?thesis .
  next
    case False
    then have "unat stop - unat i = 0" by (simp add: word_less_nat_alt)
    with False show ?thesis by (simp add: cidr_loop.simps)
  qed
qed

lemma unat_mask32: "k \<le> 32 \<Longrightarrow> unat (mask k :: 32 word) = 2 ^ k - 1"
proof -
  assume k: "k \<le> 32"
  have "(mask k :: nat) < 2 ^ k" by (simp add: mask_eq_exp_minus_1)
  also have "(2::nat) ^ k \<le> 2 ^ 32" using k by (intro power_increasing) simp_all
  finally have lt: "(mask k :: nat) < 2 ^ 32" .
  have "unat (mask k :: 32 word) = unat (of_nat (mask k) :: 32 word)"
    by (simp add: of_nat_mask_eq)
  also have "\<dots> = mask k" using lt by (simp add: unat_of_nat take_bit_nat_eq_self)
  also have "\<dots> = 2 ^ k - 1" by (simp add: mask_eq_exp_minus_1)
  finally show ?thesis .
qed

lemma CIDR_stop:
  fixes a :: "32 word" and n :: nat
  defines "m \<equiv> CIDRMask32 n"
  defines "net \<equiv> a AND m"
  shows "(net AND m) OR (m XOR 0xffffffff) = net OR NOT m"
    and "net OR NOT m = net + of_nat (2 ^ (32 - n) - 1)"
    and "unat (net OR NOT m) - unat net = 2 ^ (32 - n) - 1"
proof -
  have e: "(0xffffffff :: 32 word) = - 1" by simp
  have x: "m XOR 0xffffffff = NOT m" unfolding e by (rule bit.xor_one_right)
  have nm: "NOT m = mask (32 - n)" unfolding m_def CIDRMask32_def by simp
  have z: "net AND mask (32 - n) = 0"
    unfolding net_def m_def CIDRMask32_def
    by (rule bit_word_eqI) (auto simp: bit_simps)
  have i: "net AND m = net" unfolding net_def by (simp add: and.assoc)
  show 1: "(net AND m) OR (m XOR 0xffffffff) = net OR NOT m"
    unfolding i x ..
  have plus: "net OR NOT m = net + mask (32 - n)"
    unfolding nm using z by (simp add: disjunctive_add_eq_or)
  have um: "unat (mask (32 - n) :: 32 word) = 2 ^ (32 - n) - 1" by (rule unat_mask32) simp
  have "(mask (32 - n) :: 32 word) = of_nat (unat (mask (32 - n) :: 32 word))" by simp
  then show "net OR NOT m = net + of_nat (2 ^ (32 - n) - 1)" unfolding plus um by simp
  have le: "net \<le> net + mask (32 - n)" using z by (simp add: disjunctive_add_eq_or le_word_or2)
  have "unat (net + mask (32 - n)) - unat net = unat (net + mask (32 - n) - net)"
    by (rule unat_sub [OF le, symmetric])
  also have "\<dots> = unat (mask (32 - n) :: 32 word)" by simp
  finally show "unat (net OR NOT m) - unat net = 2 ^ (32 - n) - 1" unfolding plus um .
qed

lemma cut_slash_Some: "cut_slash s = Some (a, b) \<Longrightarrow> Contains s CHR ''/''"
  by (simp add: cut_slash_def Contains_def split: if_splits)

lemma parse_prefix_V4:
  assumes "parse_prefix p6 line = Some (V4 a, n)"
  shows "Contains line CHR ''/''" and "n \<le> 32"
    and "ParseCIDR p6 line = Some \<lparr>IP = IP4 (a AND CIDRMask32 n), Mask = IP4 (CIDRMask32 n)\<rparr>"
proof -
  from assms show "Contains line CHR ''/''"
    by (auto simp: parse_prefix_def split: option.splits dest: cut_slash_Some)
  from assms show "n \<le> 32"
    by (auto simp: parse_prefix_def BitLen_def split: option.splits prod.splits if_splits)
  from assms show "ParseCIDR p6 line = Some \<lparr>IP = IP4 (a AND CIDRMask32 n), Mask = IP4 (CIDRMask32 n)\<rparr>"
    by (simp add: ParseCIDR_def)
qed

lemma parseCIDRNetwork_V4:
  assumes "parse_prefix p6 line = Some (V4 a, n)"
  shows "parseCIDRNetwork p6 line =
    Returns (map (\<lambda>k. IP_String ((a AND CIDRMask32 n) + of_nat k)) [0..<2 ^ (32 - n) - 1], None)"
  using CIDR_stop(1,3) [of a n] 
  by (simp add: parseCIDRNetwork_def parse_prefix_V4(3) [OF assms] Uint32_def cidr_loop_eq)


section \<open>Dotted text is read back\<close>

text \<open>
  Every text \<open>a.b.c.d/n\<close> written with the decimal digits of four bytes and of a prefix length
  \<open>n \<le> 32\<close> is accepted by the model of \<open>net.ParseCIDR\<close>, as the address \<open>a.b.c.d\<close> with
  prefix length \<open>n\<close>: the hypothesis of the theorem on CIDR lines holds for all of them.
\<close>

lemma digit_char:
  assumes "k < 10"
  shows "isDigit (digits ! k)" and "digitVal (digits ! k) = k"
proof -
  from assms have "k = 0 \<or> k = 1 \<or> k = 2 \<or> k = 3 \<or> k = 4 \<or> k = 5 \<or> k = 6 \<or> k = 7 \<or> k = 8 \<or> k = 9"
    by arith
  then show "isDigit (digits ! k)" and "digitVal (digits ! k) = k"
    by (auto simp: digits_def isDigit_def digitVal_def)
qed

lemma digit_not_separator:
  assumes "isDigit c"
  shows "c \<noteq> CHR ''.''" and "c \<noteq> CHR '':''" and "c \<noteq> CHR ''%''" and "c \<noteq> CHR ''/''"
    and "c \<noteq> CHR ''-''"
  using assms by (auto simp: isDigit_def)

lemma appendDecimal_digits: "c \<in> set (appendDecimal x) \<Longrightarrow> isDigit c"
proof -
  have "unat x div 100 < 10" using unsigned_less [of x, where ?'a = nat] by simp
  then show "c \<in> set (appendDecimal x) \<Longrightarrow> isDigit c"
    by (auto simp: appendDecimal_def Let_def digit_char(1) split: if_splits)
qed

lemma octet_loop_1: "isDigit c1 \<Longrightarrow> digitVal c1 \<le> 255 \<Longrightarrow> octet_loop 0 0 [c1] = Some (digitVal c1)"
  by simp

lemma octet_loop_2:
  "isDigit c1 \<Longrightarrow> isDigit c2 \<Longrightarrow> digitVal c1 \<noteq> 0 \<Longrightarrow>
   digitVal c1 * 10 + digitVal c2 \<le> 255 \<Longrightarrow>
   octet_loop 0 0 [c1, c2] = Some (digitVal c1 * 10 + digitVal c2)"
  by (simp add: Let_def)

lemma octet_loop_3:
  "isDigit c1 \<Longrightarrow> isDigit c2 \<Longrightarrow> isDigit c3 \<Longrightarrow> digitVal c1 \<noteq> 0 \<Longrightarrow>
   (digitVal c1 * 10 + digitVal c2) * 10 + digitVal c3 \<le> 255 \<Longrightarrow>
   octet_loop 0 0 [c1, c2, c3] = Some ((digitVal c1 * 10 + digitVal c2) * 10 + digitVal c3)"
  by (simp add: Let_def)

lemma appendDecimal_cases:
  fixes x :: "8 word"
  defines "n \<equiv> unat x"
  shows "n < 10 \<Longrightarrow> appendDecimal x = [digits ! n]"
    and "10 \<le> n \<Longrightarrow> n < 100 \<Longrightarrow> appendDecimal x = [digits ! (n div 10), digits ! (n mod 10)]"
    and "100 \<le> n \<Longrightarrow>
         appendDecimal x = [digits ! (n div 100), digits ! (n div 10 mod 10), digits ! (n mod 10)]"
  unfolding n_def by (simp_all add: appendDecimal_def Let_def)

lemma octet_appendDecimal: "octet (appendDecimal x) = Some x"
proof -
  define n where "n = unat x"
  have n: "n < 256" unfolding n_def using unsigned_less [of x, where ?'a = nat] by simp
  have "octet_loop 0 0 (appendDecimal x) = Some n"
  proof -
    consider "n < 10" | "10 \<le> n" "n < 100" | "100 \<le> n" by arith
    then show ?thesis
    proof cases
      case 1
      have t: "appendDecimal x = [digits ! n]" using 1 unfolding n_def by (rule appendDecimal_cases(1))
      have "octet_loop 0 0 [digits ! n] = Some (digitVal (digits ! n))"
        by (rule octet_loop_1) (use 1 in \<open>simp_all add: digit_char\<close>)
      then show ?thesis unfolding t by (simp add: digit_char [OF 1])
    next
      case 2
      have t: "appendDecimal x = [digits ! (n div 10), digits ! (n mod 10)]"
        using 2 unfolding n_def by (rule appendDecimal_cases(2))
      have a: "n div 10 < 10" using 2 by simp
      have b: "n mod 10 < 10" by simp
      have c: "n div 10 \<noteq> 0" using 2 by simp
      have v: "n div 10 * 10 + n mod 10 = n" by simp
      have "octet_loop 0 0 [digits ! (n div 10), digits ! (n mod 10)] =
          Some (digitVal (digits ! (n div 10)) * 10 + digitVal (digits ! (n mod 10)))"
      proof (rule octet_loop_2)
        show "isDigit (digits ! (n div 10))" by (rule digit_char(1) [OF a])
        show "isDigit (digits ! (n mod 10))" by (rule digit_char(1) [OF b])
        show "digitVal (digits ! (n div 10)) \<noteq> 0" unfolding digit_char(2) [OF a] by (rule c)
        show "digitVal (digits ! (n div 10)) * 10 + digitVal (digits ! (n mod 10)) \<le> 255"
          unfolding digit_char(2) [OF a] digit_char(2) [OF b] v using n by simp
      qed
      then show ?thesis unfolding t digit_char(2) [OF a] digit_char(2) [OF b] v .
    next
      case 3
      have t: "appendDecimal x = [digits ! (n div 100), digits ! (n div 10 mod 10), digits ! (n mod 10)]"
        using 3 unfolding n_def by (rule appendDecimal_cases(3))
      have a: "n div 100 < 10" using n by simp
      have b: "n div 10 mod 10 < 10" by simp
      have b': "n mod 10 < 10" by simp
      have c: "n div 100 \<noteq> 0" using 3 by simp
      have h: "n div 100 = n div 10 div 10" by (simp add: div_mult2_eq)
      have "n div 100 * 10 + n div 10 mod 10 = n div 10" unfolding h by simp
      then have v: "(n div 100 * 10 + n div 10 mod 10) * 10 + n mod 10 = n" by simp
      have "octet_loop 0 0 [digits ! (n div 100), digits ! (n div 10 mod 10), digits ! (n mod 10)] =
          Some ((digitVal (digits ! (n div 100)) * 10 + digitVal (digits ! (n div 10 mod 10))) * 10
                + digitVal (digits ! (n mod 10)))"
      proof (rule octet_loop_3)
        show "isDigit (digits ! (n div 100))" by (rule digit_char(1) [OF a])
        show "isDigit (digits ! (n div 10 mod 10))" by (rule digit_char(1) [OF b])
        show "isDigit (digits ! (n mod 10))" by (rule digit_char(1) [OF b'])
        show "digitVal (digits ! (n div 100)) \<noteq> 0" unfolding digit_char(2) [OF a] by (rule c)
        show "(digitVal (digits ! (n div 100)) * 10 + digitVal (digits ! (n div 10 mod 10))) * 10
                + digitVal (digits ! (n mod 10)) \<le> 255"
          unfolding digit_char(2) [OF a] digit_char(2) [OF b] digit_char(2) [OF b'] v using n by simp
      qed
      then show ?thesis
        unfolding t digit_char(2) [OF a] digit_char(2) [OF b] digit_char(2) [OF b'] v .
    qed
  qed
  then show ?thesis by (simp add: octet_def n_def)
qed

lemma dtoi_loop_1: "isDigit c1 \<Longrightarrow> digitVal c1 < 16777215 \<Longrightarrow> dtoi [c1] = (digitVal c1, 1, True)"
  by (simp add: dtoi_def)

lemma dtoi_loop_2:
  "isDigit c1 \<Longrightarrow> isDigit c2 \<Longrightarrow> digitVal c1 * 10 + digitVal c2 < 16777215 \<Longrightarrow>
   dtoi [c1, c2] = (digitVal c1 * 10 + digitVal c2, 2, True)"
  by (simp add: dtoi_def Let_def)

lemma dtoi_appendDecimal:
  assumes "n \<le> 32"
  shows "dtoi (appendDecimal (of_nat n)) = (n, length (appendDecimal (of_nat n)), True)"
proof -
  have u: "unat (of_nat n :: 8 word) = n" using assms by (simp add: unat_of_nat take_bit_nat_eq_self)
  consider "n < 10" | "10 \<le> n" by arith
  then show ?thesis
  proof cases
    case 1
    have t: "appendDecimal (of_nat n) = [digits ! n]"
      using 1 appendDecimal_cases(1) [of "of_nat n"] unfolding u by simp
    have "dtoi [digits ! n] = (digitVal (digits ! n), 1, True)"
      by (rule dtoi_loop_1) (use 1 in \<open>simp_all add: digit_char\<close>)
    then show ?thesis unfolding t by (simp add: digit_char [OF 1])
  next
    case 2
    have lt: "n < 100" using assms by simp
    have t: "appendDecimal (of_nat n) = [digits ! (n div 10), digits ! (n mod 10)]"
      using 2 lt appendDecimal_cases(2) [of "of_nat n"] unfolding u by simp
    have a: "n div 10 < 10" using lt by simp
    have b: "n mod 10 < 10" by simp
    have v: "n div 10 * 10 + n mod 10 = n" by simp
    have "dtoi [digits ! (n div 10), digits ! (n mod 10)] =
        (digitVal (digits ! (n div 10)) * 10 + digitVal (digits ! (n mod 10)), 2, True)"
    proof (rule dtoi_loop_2)
      show "isDigit (digits ! (n div 10))" by (rule digit_char(1) [OF a])
      show "isDigit (digits ! (n mod 10))" by (rule digit_char(1) [OF b])
      show "digitVal (digits ! (n div 10)) * 10 + digitVal (digits ! (n mod 10)) < 16777215"
        unfolding digit_char(2) [OF a] digit_char(2) [OF b] v using assms by simp
    qed
    then show ?thesis unfolding t digit_char(2) [OF a] digit_char(2) [OF b] v by simp
  qed
qed

lemma Split_no_separator: "c \<notin> set xs \<Longrightarrow> Split xs c = [xs]"
  by (induction xs) auto

lemma Split_at_separator: "c \<notin> set xs \<Longrightarrow> Split (xs @ c # ys) c = xs # Split ys c"
  by (induction xs) auto

lemma dot_not_in_decimal: "CHR ''.'' \<notin> set (appendDecimal x)"
  using appendDecimal_digits digit_not_separator(1) by blast

lemma parseIPv4_dotted: "parseIPv4 (dotted a b c d) = Some (AddrFrom4 a b c d)"
  by (simp add: parseIPv4_def dotted_def Split_at_separator Split_no_separator dot_not_in_decimal
      octet_appendDecimal)

lemma first_separator_dotted:
  "dropWhile (\<lambda>c. c \<noteq> CHR ''.'' \<and> c \<noteq> CHR '':'' \<and> c \<noteq> CHR ''%'') (dotted a b c d) =
     ''.'' @ appendDecimal b @ ''.'' @ appendDecimal c @ ''.'' @ appendDecimal d"
proof -
  have "\<forall>x\<in>set (appendDecimal a). x \<noteq> CHR ''.'' \<and> x \<noteq> CHR '':'' \<and> x \<noteq> CHR ''%''"
    using appendDecimal_digits digit_not_separator by blast
  then show ?thesis unfolding dotted_def by (simp add: dropWhile_append2)
qed

lemma ParseAddr_dotted: "ParseAddr p6 (dotted a b c d) = Some (V4 (AddrFrom4 a b c d))"
  by (simp add: ParseAddr_def first_separator_dotted parseIPv4_dotted)

lemma slash_not_in_dotted: "CHR ''/'' \<notin> set (dotted a b c d)"
  using appendDecimal_digits digit_not_separator(4) by (auto simp: dotted_def)

lemma cut_slash_at: "CHR ''/'' \<notin> set xs \<Longrightarrow> cut_slash (xs @ ''/'' @ ys) = Some (xs, ys)"
proof -
  assume "CHR ''/'' \<notin> set xs"
  then have a: "\<forall>x\<in>set xs. x \<noteq> CHR ''/''" by auto
  have "takeWhile (\<lambda>c. c \<noteq> CHR ''/'') (xs @ CHR ''/'' # ys) = xs"
    using a by (simp add: takeWhile_tail)
  moreover have "dropWhile (\<lambda>c. c \<noteq> CHR ''/'') (xs @ CHR ''/'' # ys) = CHR ''/'' # ys"
    using a by (simp add: dropWhile_append2)
  ultimately show ?thesis by (simp add: cut_slash_def)
qed

lemma parse_prefix_canonical:
  assumes "n \<le> 32"
  shows "parse_prefix p6 (dotted a b c d @ ''/'' @ appendDecimal (of_nat n)) =
           Some (V4 (AddrFrom4 a b c d), n)"
  using assms
  by (simp add: parse_prefix_def cut_slash_at [OF slash_not_in_dotted] ParseAddr_dotted
      dtoi_appendDecimal BitLen_def del: append.simps)


section \<open>CIDR lines\<close>

text \<open>
  C1. A line that \<open>net.ParseCIDR\<close> reads as dotted IPv4 text \<open>a.b.c.d\<close> with prefix length \<open>n\<close>
  (every text \<open>a.b.c.d/n\<close> is one, by \<open>parse_prefix_canonical\<close>) expands to exactly
  \<open>2^(32-n) - 1\<close> addresses: the network address \<open>net\<close> (the parsed address with its host bits
  cleared), \<open>net + 1\<close>, and so on in ascending order, without wrapping around; the next one
  after the last would be the broadcast address \<open>net OR NOT mask\<close>, which is left out.
  parseAddresses returns them without an error and writes nothing to standard error.
  When \<open>n < 32\<close> the list starts with the network address; for \<open>n = 32\<close> the count
  \<open>2^0 - 1\<close> is zero and there is no first element.
\<close>

theorem cidr_expansion:
  assumes "parse_prefix p6 line = Some (V4 a, n)"
  shows "\<exists>rs net broadcast.
           net = a AND CIDRMask32 n \<and> broadcast = net OR NOT (CIDRMask32 n) \<and>
           parseAddresses p6 line = Returns (rs, None, []) \<and>
           length rs = 2 ^ (32 - n) - 1 \<and>
           rs = map (\<lambda>k. IP_String (net + of_nat k)) [0..<2 ^ (32 - n) - 1] \<and>
           (\<forall>k<2 ^ (32 - n) - 1. unat (net + of_nat k) = unat net + k) \<and>
           unat broadcast = unat net + (2 ^ (32 - n) - 1) \<and>
           (n < 32 \<longrightarrow> hd rs = IP_String net)"
proof -
  let ?net = "a AND CIDRMask32 n"
  let ?count = "(2::nat) ^ (32 - n) - 1"
  let ?rs = "map (\<lambda>k. IP_String (?net + of_nat k)) [0..<?count]"
  have r: "parseAddresses p6 line = Returns (?rs, None, [])"
    by (simp add: parseAddresses_def parse_prefix_V4(1) [OF assms] parseCIDRNetwork_V4 [OF assms]
        skipping_def)
  have le: "?net \<le> ?net OR NOT (CIDRMask32 n)" by (rule le_word_or2)
  have top: "unat (?net OR NOT (CIDRMask32 n)) = unat ?net + ?count"
  proof -
    from le have "unat ?net \<le> unat (?net OR NOT (CIDRMask32 n))" by (simp add: word_le_nat_alt)
    with CIDR_stop(3) [of a n] show ?thesis by arith
  qed
  have asc: "unat (?net + of_nat k) = unat ?net + k" if "k < ?count" for k
  proof -
    have "unat (?net OR NOT (CIDRMask32 n)) < 2 ^ 32"
      using unsigned_less [of "?net OR NOT (CIDRMask32 n)", where ?'a = nat] by simp
    then have "unat ?net + ?count < 2 ^ 32" unfolding top .
    with that have b: "unat ?net + k < 2 ^ 32" by arith
    then have "k < 2 ^ 32" by simp
    then have "unat (of_nat k :: 32 word) = k" by (simp add: unat_of_nat take_bit_nat_eq_self)
    with b show ?thesis by (simp add: unat_word_ariths)
  qed
  have first: "hd ?rs = IP_String ?net" if "n < 32"
  proof -
    from that have "(2::nat) ^ 1 \<le> 2 ^ (32 - n)" by (intro power_increasing) simp_all
    then have "?count \<noteq> 0" by simp
    then show ?thesis by (simp add: hd_map upt_conv_Cons)
  qed
  show ?thesis using r top asc first by simp
qed

text \<open>
  C1, witness: the line \<open>10.0.0.0/30\<close> satisfies the hypothesis and expands to the three
  addresses \<open>10.0.0.0\<close>, \<open>10.0.0.1\<close>, \<open>10.0.0.2\<close>; \<open>10.0.0.3\<close> is left out.
\<close>

theorem cidr_expansion_witness:
  "parse_prefix no_ipv6 ''10.0.0.0/30'' = Some (V4 0x0A000000, 30) \<and>
   parseAddresses no_ipv6 ''10.0.0.0/30'' =
     Returns ([''10.0.0.0'', ''10.0.0.1'', ''10.0.0.2''], None, [])"
proof -
  have h: "parse_prefix no_ipv6 ''10.0.0.0/30'' = Some (V4 0x0A000000, 30)"
    by (simp add: go_defs)
  have m: "(0x0A000000 :: 32 word) AND CIDRMask32 30 = 0x0A000000"
    by (simp add: go_defs)
  from cidr_expansion [OF h] obtain rs where
    "parseAddresses no_ipv6 ''10.0.0.0/30'' = Returns (rs, None, [])"
    "rs = map (\<lambda>k. IP_String (((0x0A000000 :: 32 word) AND CIDRMask32 30) + of_nat k)) [0..<2 ^ (32 - 30) - 1]"
    by auto
  then have "parseAddresses no_ipv6 ''10.0.0.0/30'' =
      Returns ([''10.0.0.0'', ''10.0.0.1'', ''10.0.0.2''], None, [])"
    unfolding m by (simp add: upt_conv_Cons IP_String_def dotted_def appendDecimal_def digits_def)
  with h show ?thesis by simp
qed

section \<open>The loop of parseNetworkBlock\<close>

lemma block_loop_Some_stop:
  assumes "block_loop i stop acc = Some r"
  shows "stop \<noteq> - 1"
proof (rule block_loop.raw_induct [where P = "\<lambda>i stop acc r. stop \<noteq> - 1", OF _ assms])
  fix f :: "32 word \<Rightarrow> 32 word \<Rightarrow> string list \<Rightarrow> string list option"
    and i stop :: "32 word" and addresses r :: "string list"
  assume IH: "\<And>i stop addresses r. f i stop addresses = Some r \<Longrightarrow> stop \<noteq> - 1"
    and step: "(if i \<le> stop then f (i + 1) stop (addresses @ [IP_String i]) else Some addresses) = Some r"
  show "stop \<noteq> - 1"
  proof
    assume e: "stop = - 1"
    then have "i \<le> stop" by simp
    with step have "f (i + 1) stop (addresses @ [IP_String i]) = Some r" by simp
    from IH [OF this] e show False by simp
  qed
qed

lemma block_loop_never_returns: "block_loop i (- 1) acc = None"
  using block_loop_Some_stop [of i "- 1" acc] by (cases "block_loop i (- 1) acc") auto

lemma unat_succ_not_max: "stop \<noteq> - 1 \<Longrightarrow> i \<le> stop \<Longrightarrow> unat (i + 1) = Suc (unat i)" for i stop :: "32 word"
proof -
  assume a: "stop \<noteq> - 1" "i \<le> stop"
  have "stop < - 1" using a(1) by (simp add: word_order.not_eq_extremum)
  with a(2) have "i < - 1" by simp
  then show ?thesis by (rule unat_succ_below)
qed

lemma block_loop_returns:
  "stop \<noteq> - 1 \<Longrightarrow> i \<le> stop \<Longrightarrow>
   block_loop i stop acc = Some (acc @ map (\<lambda>k. IP_String (i + of_nat k)) [0..<Suc (unat stop - unat i)])"
proof (induction "unat stop - unat i" arbitrary: i acc)
  case 0
  then have eq: "i = stop" by (simp add: word_le_nat_alt word_unat_eq_iff)
  have s: "unat (stop + 1) = Suc (unat stop)" using "0.prems" eq unat_succ_not_max [of stop stop] by simp
  then have "\<not> stop + 1 \<le> stop" by (simp add: word_le_nat_alt)
  then show ?case unfolding eq
    by (subst block_loop.simps, subst block_loop.simps) simp
next
  case (Suc m)
  have s: "unat (i + 1) = Suc (unat i)" using Suc.prems by (rule unat_succ_not_max)
  have lt: "unat i < unat stop" using Suc.hyps(2) by simp
  then have le': "i + 1 \<le> stop" using s by (simp add: word_le_nat_alt)
  have m: "m = unat stop - unat (i + 1)" using Suc.hyps(2) s by simp
  have len: "unat stop - unat i = Suc (unat stop - unat (i + 1))" using lt s by simp
  have "block_loop i stop acc = block_loop (i + 1) stop (acc @ [IP_String i])"
    using Suc.prems(2) by (subst block_loop.simps) simp
  also have "\<dots> = Some ((acc @ [IP_String i]) @
      map (\<lambda>k. IP_String (i + 1 + of_nat k)) [0..<Suc (unat stop - unat (i + 1))])"
    using m Suc.prems(1) le' by (rule Suc.hyps(1))
  also have "(acc @ [IP_String i]) @
      map (\<lambda>k. IP_String (i + 1 + of_nat k)) [0..<Suc (unat stop - unat (i + 1))] =
      acc @ map (\<lambda>k. IP_String (i + of_nat k)) [0..<Suc (unat stop - unat i)]"
    unfolding len by (simp add: upt_conv_Cons map_Suc_upt [symmetric] del: upt_Suc add: ac_simps)
  finally show ?case .
qed

lemma block_loop_empty: "stop < i \<Longrightarrow> block_loop i stop acc = Some acc"
  by (subst block_loop.simps) (auto dest: leD)

lemma block_loop_total: "stop \<noteq> - 1 \<Longrightarrow> \<exists>r. block_loop i stop acc = Some r"
proof (cases "i \<le> stop")
  case True
  assume "stop \<noteq> - 1"
  from block_loop_returns [OF this True] show ?thesis by blast
next
  case False
  then have "stop < i" by simp
  from block_loop_empty [OF this] show ?thesis by blast
qed

lemma block_loop_None_iff: "block_loop i stop acc = None \<longleftrightarrow> stop = - 1"
proof
  assume n: "block_loop i stop acc = None"
  show "stop = - 1"
  proof (rule ccontr)
    assume "stop \<noteq> - 1"
    from block_loop_total [OF this, of i acc] n show False by simp
  qed
next
  assume "stop = - 1"
  then show "block_loop i stop acc = None" by (simp add: block_loop_never_returns)
qed

section \<open>Block lines\<close>

lemma Split_length: "length (Split s c) = Suc (count_list s c)"
  by (induction s) (auto split: list.splits)

lemma Split_fields_Contains: "2 \<le> length (Split s c) \<Longrightarrow> Contains s c"
proof -
  assume "2 \<le> length (Split s c)"
  then have "count_list s c \<noteq> 0" by (simp add: Split_length)
  then show ?thesis unfolding Contains_def by (simp add: count_list_0_iff)
qed

lemma TrimLeft_subset: "set (TrimLeft s) \<subseteq> set s"
proof (induction s rule: TrimLeft.induct)
  case (1 s)
  show ?case
  proof (cases "space_at_start s = 0")
    case True
    then show ?thesis by (simp add: TrimLeft.simps)
  next
    case False
    have "set (TrimLeft s) = set (TrimLeft (drop (space_at_start s) s))"
      using False by (subst TrimLeft.simps) simp
    also have "\<dots> \<subseteq> set (drop (space_at_start s) s)" using False by (rule "1.IH")
    also have "\<dots> \<subseteq> set s" by (rule set_drop_subset)
    finally show ?thesis .
  qed
qed

lemma TrimRight_subset: "set (TrimRight s) \<subseteq> set s"
proof (induction s rule: TrimRight.induct)
  case (1 s)
  show ?case
  proof (cases "space_at_end s = 0")
    case True
    then show ?thesis by (simp add: TrimRight.simps)
  next
    case False
    have "set (TrimRight s) = set (TrimRight (take (length s - space_at_end s) s))"
      using False by (subst TrimRight.simps) simp
    also have "\<dots> \<subseteq> set (take (length s - space_at_end s) s)" using False by (rule "1.IH")
    also have "\<dots> \<subseteq> set s" by (rule set_take_subset)
    finally show ?thesis .
  qed
qed

lemma TrimSpace_subset: "set (TrimSpace s) \<subseteq> set s"
  unfolding TrimSpace_def using TrimRight_subset [of "TrimLeft s"] TrimLeft_subset [of s] by blast

lemma block_line_Contains:
  assumes "Split (TrimSpace line) CHR ''-'' = [s, e]"
  shows "Contains line CHR ''-''"
proof -
  have "Contains (TrimSpace line) CHR ''-''" by (rule Split_fields_Contains) (simp add: assms)
  then show ?thesis using TrimSpace_subset [of line] by (auto simp: Contains_def)
qed

lemma parseNetworkBlock_endpoints:
  assumes "Split (TrimSpace line) CHR ''-'' = [s, e]"
    and "Uint32 (To4 (ParseIP p6 s)) = Some start"
    and "Uint32 (To4 (ParseIP p6 e)) = Some stop"
  shows "parseNetworkBlock p6 line =
    (case block_loop start stop [] of None \<Rightarrow> Diverges | Some addresses \<Rightarrow> Returns (addresses, None))"
  using assms by (simp add: parseNetworkBlock_def)

lemma block_expansion_below_last:
  assumes "\<not> Contains line CHR ''/''"
    and "Split (TrimSpace line) CHR ''-'' = [s, e]"
    and "Uint32 (To4 (ParseIP p6 s)) = Some start"
    and "Uint32 (To4 (ParseIP p6 e)) = Some stop"
    and "start \<le> stop" and "stop \<noteq> - 1"
  shows "parseAddresses p6 line =
    Returns (map (\<lambda>k. IP_String (start + of_nat k)) [0..<Suc (unat stop - unat start)], None, [])"
  using assms(1) block_line_Contains [OF assms(2)]
  by (simp add: parseAddresses_def parseNetworkBlock_endpoints [OF assms(2,3,4)]
      block_loop_returns [OF assms(6,5)] skipping_def)

lemma block_expansion_endpoints:
  fixes start stop :: "32 word"
  assumes "start \<le> stop"
  defines "rs \<equiv> map (\<lambda>k. IP_String (start + of_nat k)) [0..<Suc (unat stop - unat start)]"
  shows "length rs = unat stop - unat start + 1"
    and "hd rs = IP_String start"
    and "last rs = IP_String stop"
    and "\<forall>k\<le>unat stop - unat start. unat (start + of_nat k) = unat start + k"
proof -
  show "length rs = unat stop - unat start + 1" by (simp add: rs_def)
  show "hd rs = IP_String start" by (simp add: rs_def hd_map upt_conv_Cons del: upt_Suc)
  have "of_nat (unat (stop - start)) = stop - start" by simp
  then have "of_nat (unat stop - unat start) = stop - start"
    unfolding unat_sub [OF assms(1)] .
  then show "last rs = IP_String stop" by (simp add: rs_def last_map)
  show "\<forall>k\<le>unat stop - unat start. unat (start + of_nat k) = unat start + k"
  proof (intro allI impI)
    fix k assume k: "k \<le> unat stop - unat start"
    have "unat start \<le> unat stop" using assms(1) by (simp add: word_le_nat_alt)
    with k have b: "unat start + k \<le> unat stop" by simp
    have "unat stop < 2 ^ 32" using unsigned_less [of stop, where ?'a = nat] by simp
    with b have c: "unat start + k < 2 ^ 32" by simp
    then have "k < 2 ^ 32" by simp
    then have "unat (of_nat k :: 32 word) = k" by (simp add: unat_of_nat take_bit_nat_eq_self)
    with c show "unat (start + of_nat k) = unat start + k" by (simp add: unat_word_ariths)
  qed
qed

lemma parseCIDRNetwork_not_Diverges: "parseCIDRNetwork p6 line \<noteq> Diverges"
  by (simp add: parseCIDRNetwork_def Let_def split: option.splits)

lemma two_fields: "length xs = 2 \<Longrightarrow> \<exists>s e. xs = [s, e]"
  by (cases xs; cases "tl xs") auto

lemma parseAddresses_Diverges_iff:
  "parseAddresses p6 line = Diverges \<longleftrightarrow>
     \<not> Contains line CHR ''/'' \<and>
     (\<exists>s e start. Split (TrimSpace line) CHR ''-'' = [s, e] \<and>
        Uint32 (To4 (ParseIP p6 s)) = Some start \<and>
        Uint32 (To4 (ParseIP p6 e)) = Some (- 1))"
proof
  assume d: "parseAddresses p6 line = Diverges"
  have no_slash: "\<not> Contains line CHR ''/''"
  proof
    assume "Contains line CHR ''/''"
    with d parseCIDRNetwork_not_Diverges [of p6 line] show False
      by (auto simp: parseAddresses_def split: outcome.splits)
  qed
  with d have b: "parseNetworkBlock p6 line = Diverges"
    by (auto simp: parseAddresses_def split: outcome.splits if_splits)
  then have len: "length (Split (TrimSpace line) CHR ''-'') = 2"
    by (auto simp: parseNetworkBlock_def Let_def split: if_splits)
  then obtain s e where se: "Split (TrimSpace line) CHR ''-'' = [s, e]"
    using two_fields by blast
  from b se obtain start stop where
    st: "Uint32 (To4 (ParseIP p6 s)) = Some start" "Uint32 (To4 (ParseIP p6 e)) = Some stop"
    and l: "block_loop start stop [] = None"
    by (auto simp: parseNetworkBlock_def split: option.splits)
  from l have "stop = - 1" by (simp add: block_loop_None_iff)
  with no_slash se st show "\<not> Contains line CHR ''/'' \<and>
     (\<exists>s e start. Split (TrimSpace line) CHR ''-'' = [s, e] \<and>
        Uint32 (To4 (ParseIP p6 s)) = Some start \<and>
        Uint32 (To4 (ParseIP p6 e)) = Some (- 1))" by blast
next
  assume "\<not> Contains line CHR ''/'' \<and>
     (\<exists>s e start. Split (TrimSpace line) CHR ''-'' = [s, e] \<and>
        Uint32 (To4 (ParseIP p6 s)) = Some start \<and>
        Uint32 (To4 (ParseIP p6 e)) = Some (- 1))"
  then obtain s e start where a: "\<not> Contains line CHR ''/''"
    "Split (TrimSpace line) CHR ''-'' = [s, e]"
    "Uint32 (To4 (ParseIP p6 s)) = Some start" "Uint32 (To4 (ParseIP p6 e)) = Some (- 1)"
    by blast
  show "parseAddresses p6 line = Diverges"
    using a(1) block_line_Contains [OF a(2)]
    by (simp add: parseAddresses_def parseNetworkBlock_endpoints [OF a(2,3,4)]
        block_loop_never_returns)
qed

lemma block_example:
  "parseAddresses p6 ''10.0.0.1-10.0.0.3'' =
     Returns ([''10.0.0.1'', ''10.0.0.2'', ''10.0.0.3''], None, [])"
  by (simp add: text_defs parseAddresses_def parseNetworkBlock_def addr_10_0_0_1 addr_10_0_0_3
      block_loop.simps IP_String_def dotted_def appendDecimal_def digits_def skipping_def)

lemma collect_Returns:
  "parseAddresses p6 line = Returns (parsed, err, written) \<Longrightarrow>
   collect p6 (line # rest) addresses stderr =
     collect p6 rest (addresses @ parsed) (stderr @ written)"
  by simp

lemma collect_Panics:
  "parseAddresses p6 line = Panics p \<Longrightarrow> collect p6 (line # rest) addresses stderr = Panics p"
  by simp

text \<open>
  C3. The claim is that every line expands to a finite sequence, a block ending at
  \<open>255.255.255.255\<close> included. The code does not: for a block line whose second endpoint reads
  as \<open>255.255.255.255\<close> (\<open>- 1\<close> as a \<open>uint32\<close>) the condition \<open>i <= end\<close> of the loop is
  true for every \<open>i\<close> and \<open>i++\<close> wraps around, so parseAddresses never returns, whatever the
  first endpoint is. These are the only lines on which it does not return
  (\<open>parseAddresses_Diverges_iff\<close>): the loop of parseCIDRNetwork, with \<open>i < end\<close>, ends for
  every prefix length.
\<close>

theorem block_ending_at_last_address_never_returns:
  assumes "\<not> Contains line CHR ''/''"
    and "Split (TrimSpace line) CHR ''-'' = [s, e]"
    and "Uint32 (To4 (ParseIP p6 s)) = Some start"
    and "Uint32 (To4 (ParseIP p6 e)) = Some (- 1)"
  shows "parseAddresses p6 line = Diverges"
  using assms(1) block_line_Contains [OF assms(2)]
  by (simp add: parseAddresses_def parseNetworkBlock_endpoints [OF assms(2,3,4)]
      block_loop_never_returns)

text \<open>
  C3, witness: the line \<open>10.0.0.1-255.255.255.255\<close>.
\<close>

theorem block_ending_at_last_address_never_returns_witness:
  "\<not> Contains ''10.0.0.1-255.255.255.255'' CHR ''/'' \<and>
   Split (TrimSpace ''10.0.0.1-255.255.255.255'') CHR ''-'' = [''10.0.0.1'', ''255.255.255.255''] \<and>
   Uint32 (To4 (ParseIP no_ipv6 ''10.0.0.1'')) = Some 0x0A000001 \<and>
   Uint32 (To4 (ParseIP no_ipv6 ''255.255.255.255'')) = Some (- 1) \<and>
   parseAddresses no_ipv6 ''10.0.0.1-255.255.255.255'' = Diverges"
proof -
  have 1: "\<not> Contains ''10.0.0.1-255.255.255.255'' CHR ''/''" by (simp add: text_defs)
  have 2: "Split (TrimSpace ''10.0.0.1-255.255.255.255'') CHR ''-'' = [''10.0.0.1'', ''255.255.255.255'']"
    by (simp add: text_defs)
  show ?thesis
    using 1 2 addr_10_0_0_1 [of no_ipv6] last_addr [of no_ipv6]
      block_ending_at_last_address_never_returns [OF 1 2 addr_10_0_0_1 last_addr, of no_ipv6]
    by simp
qed

text \<open>
  C5. The claim is that a block line \<open>start-end\<close> with \<open>start \<le> end\<close> expands to the
  \<open>end - start + 1\<close> addresses from \<open>start\<close> to \<open>end\<close>. The code does so for every
  \<open>end\<close> below \<open>255.255.255.255\<close> (\<open>block_expansion_below_last\<close> and
  \<open>block_expansion_endpoints\<close>; \<open>block_example\<close> is the line \<open>10.0.0.1-10.0.0.3\<close>). For the
  line \<open>255.255.255.254-255.255.255.255\<close>, where the claim gives two addresses, the loop of
  parseNetworkBlock never exits.
\<close>

theorem block_of_last_two_addresses:
  "parseAddresses p6 ''255.255.255.254-255.255.255.255'' = Diverges"
  by (simp add: text_defs parseAddresses_def parseNetworkBlock_def addr_255_255_255_254 last_addr
      block_loop_never_returns)

section \<open>Lines that do not parse\<close>

lemma block_endpoint_unparsed:
  "parseAddresses p6 ''10.0.0.1-10.0.0.x'' = Panics index_out_of_range"
  by (simp add: go_defs parseAddresses_def parseNetworkBlock_def)

lemma block_with_spaces:
  "parseAddresses p6 ''10.0.0.1 - 10.0.0.3'' = Panics index_out_of_range"
  by (simp add: go_defs parseAddresses_def parseNetworkBlock_def)

lemma block_with_spaces_around:
  "parseAddresses p6 ('' 10.0.0.1-10.0.0.3'' @ [CHR 0xC2, CHR 0xA0, CHR 0x0D]) =
     Returns ([''10.0.0.1'', ''10.0.0.2'', ''10.0.0.3''], None, [])"
  by (simp add: text_defs parseAddresses_def parseNetworkBlock_def addr_10_0_0_1 addr_10_0_0_3
      block_loop.simps IP_String_def dotted_def appendDecimal_def digits_def skipping_def)

text \<open>
  C2, counterexample. The claim is that a malformed block line gives no address and a warning,
  and that the lines after it are still expanded. On the two lines \<open>10.0.0.1-10.0.0.2-10.0.0.3\<close>
  and \<open>10.0.0.9\<close> the reader panics at the first line (\<open>ErrorLogger.Panicf\<close> in
  parseNetworkBlock, recovered nowhere): the second line is never expanded.
\<close>

theorem malformed_block_aborts:
  "getAddressesFromStdin no_ipv6 [''10.0.0.1-10.0.0.2-10.0.0.3'', ''10.0.0.9''] =
     Panics Panicf_not_a_valid_block"
  by (simp add: text_defs parseAddresses_def parseNetworkBlock_def getAddressesFromStdin_def)

text \<open>
  C2, as amended. A line with a \<open>/\<close> that \<open>net.ParseCIDR\<close> refuses gives no address, parseAddresses
  writes the warning \<open>Unable to parse ... Skipping...\<close> for it, and the reader goes on with the
  lines after it, its addresses so far unchanged. A line without \<open>/\<close> and with \<open>-\<close> that does
  not split on \<open>-\<close> into exactly two fields makes parseNetworkBlock panic, and with it the
  reader.
\<close>

theorem malformed_line_policy:
  "(Contains cidr_line CHR ''/'' \<and> ParseCIDR p6 cidr_line = None \<longrightarrow>
      parseAddresses p6 cidr_line = Returns ([], None, [Unable_to_parse cidr_line]) \<and>
      collect p6 (cidr_line # rest) addresses stderr =
        collect p6 rest addresses (stderr @ [Unable_to_parse cidr_line])) \<and>
   (\<not> Contains block_line CHR ''/'' \<and> Contains block_line CHR ''-'' \<and>
    length (Split (TrimSpace block_line) CHR ''-'') \<noteq> 2 \<longrightarrow>
      parseAddresses p6 block_line = Panics Panicf_not_a_valid_block \<and>
      collect p6 (block_line # rest) addresses stderr = Panics Panicf_not_a_valid_block)"
proof (intro conjI impI)
  assume c: "Contains cidr_line CHR ''/'' \<and> ParseCIDR p6 cidr_line = None"
  then show r: "parseAddresses p6 cidr_line = Returns ([], None, [Unable_to_parse cidr_line])"
    by (simp add: parseAddresses_def parseCIDRNetwork_def skipping_def)
  show "collect p6 (cidr_line # rest) addresses stderr =
        collect p6 rest addresses (stderr @ [Unable_to_parse cidr_line])"
    using collect_Returns [OF r] by simp
next
  assume b: "\<not> Contains block_line CHR ''/'' \<and> Contains block_line CHR ''-'' \<and>
    length (Split (TrimSpace block_line) CHR ''-'') \<noteq> 2"
  then show r: "parseAddresses p6 block_line = Panics Panicf_not_a_valid_block"
    by (simp add: parseAddresses_def parseNetworkBlock_def)
  show "collect p6 (block_line # rest) addresses stderr = Panics Panicf_not_a_valid_block"
    using r by (rule collect_Panics)
qed

text \<open>
  C2, witness: the line \<open>10.0.0.0/33\<close> is skipped with a warning and the line \<open>10.0.0.9\<close> after
  it is expanded; the line \<open>1-2-3\<close> panics.
\<close>

theorem malformed_line_policy_witness:
  "(Contains ''10.0.0.0/33'' CHR ''/'' \<and> ParseCIDR no_ipv6 ''10.0.0.0/33'' = None) \<and>
   getAddressesFromStdin no_ipv6 [''10.0.0.0/33'', ''10.0.0.9''] =
     Returns ([''10.0.0.9''], None, [Unable_to_parse ''10.0.0.0/33'']) \<and>
   (\<not> Contains ''1-2-3'' CHR ''/'' \<and> Contains ''1-2-3'' CHR ''-'' \<and>
    length (Split (TrimSpace ''1-2-3'') CHR ''-'') \<noteq> 2) \<and>
   parseAddresses no_ipv6 ''1-2-3'' = Panics Panicf_not_a_valid_block"
proof -
  have c: "Contains ''10.0.0.0/33'' CHR ''/'' \<and> ParseCIDR no_ipv6 ''10.0.0.0/33'' = None"
    by (simp add: go_defs)
  have b: "\<not> Contains ''1-2-3'' CHR ''/'' \<and> Contains ''1-2-3'' CHR ''-'' \<and>
    length (Split (TrimSpace ''1-2-3'') CHR ''-'') \<noteq> 2"
    by (simp add: text_defs)
  have single: "parseAddresses no_ipv6 ''10.0.0.9'' = Returns ([''10.0.0.9''], None, [])"
    by (simp add: text_defs parseAddresses_def skipping_def)
  from malformed_line_policy [of "''10.0.0.0/33''" no_ipv6 "[''10.0.0.9'']" "[]" "[]" "''1-2-3''"] c b
  have "collect no_ipv6 [''10.0.0.0/33'', ''10.0.0.9''] [] [] =
      collect no_ipv6 [''10.0.0.9''] [] [Unable_to_parse ''10.0.0.0/33'']"
    and p: "parseAddresses no_ipv6 ''1-2-3'' = Panics Panicf_not_a_valid_block"
    by simp_all
  then have "getAddressesFromStdin no_ipv6 [''10.0.0.0/33'', ''10.0.0.9''] =
     Returns ([''10.0.0.9''], None, [Unable_to_parse ''10.0.0.0/33''])"
    by (simp add: getAddressesFromStdin_def single)
  with c b p show ?thesis by simp
qed

section \<open>Empty lines\<close>

text \<open>
  C6, counterexample. The claim is that an empty line gives no address. Of the three lines
  \<open>10.0.0.9\<close>, the empty line and \<open>10.0.0.10\<close>, the reader returns three addresses, the
  second being the empty text.
\<close>

theorem empty_line_is_an_address:
  "getAddressesFromStdin no_ipv6 [''10.0.0.9'', [], ''10.0.0.10''] =
     Returns ([''10.0.0.9'', [], ''10.0.0.10''], None, [])"
  by (simp add: text_defs parseAddresses_def skipping_def getAddressesFromStdin_def)

text \<open>
  C6, as amended. An empty line holds neither \<open>/\<close> nor \<open>-\<close>, so parseAddresses passes it
  through like any other such text: it gives exactly one address, the empty text, and the
  reader appends it to the addresses. A file that ends with a line feed has such a line at
  its end, since getAddressesFromFile splits the file on line feeds.
\<close>

theorem empty_line_passed_through:
  "parseAddresses p6 [] = Returns ([[]], None, []) \<and>
   collect p6 ([] # rest) addresses stderr = collect p6 rest (addresses @ [[]]) stderr \<and>
   getAddressesFromFile p6 (Some (''10.0.0.9'' @ [CHR 0x0A])) = Returns ([''10.0.0.9'', []], None, [])"
  by (simp add: text_defs parseAddresses_def skipping_def getAddressesFromFile_def)

section \<open>The accepted status codes\<close>

lemma valid_codes_loop_lookup:
  "valid_codes_loop tokens V code =
     (if \<exists>t\<in>set tokens. Atoi t = Some code then Some True else V code)"
  by (induction tokens arbitrary: V) (auto split: option.splits)

text \<open>
  C10. After the loop of main over the \<open>-s\<close> flag, a status code is in \<open>ValidStatusCodes\<close> (with
  the value \<open>true\<close>) exactly when one of the comma-separated tokens of the flag is read by
  \<open>strconv.Atoi\<close> as that code. A token that \<open>Atoi\<close> refuses adds nothing and stops nothing:
  the loop has no other exit, and the tokens before and after it are accepted all the same.
\<close>

theorem status_codes_accepted:
  "main_ValidStatusCodes validStatusCodes code =
     (if \<exists>strCode\<in>set (Split validStatusCodes CHR '',''). Atoi strCode = Some code
      then Some True else None)"
  by (simp add: main_ValidStatusCodes_def valid_codes_loop_lookup)

lemma Atoi_404: "Atoi ''404'' = Some 404"
  by (simp add: Atoi_def isDigit_def digitVal_def)

lemma Atoi_403: "Atoi ''403'' = Some 403"
  by (simp add: Atoi_def isDigit_def digitVal_def)

lemma Atoi_abc: "Atoi ''4o4'' = None"
  by (simp add: Atoi_def isDigit_def digitVal_def)

lemma Atoi_spaced: "Atoi '' 502'' = None"
  by (simp add: Atoi_def isDigit_def digitVal_def)

lemma status_codes_example:
  "accepted (main_ValidStatusCodes ''404,4o4,403, 502'') 404 \<and>
   accepted (main_ValidStatusCodes ''404,4o4,403, 502'') 403 \<and>
   \<not> accepted (main_ValidStatusCodes ''404,4o4,403, 502'') 502 \<and>
   dom (main_ValidStatusCodes ''404,4o4,403, 502'') = {404, 403}"
  by (auto simp: main_ValidStatusCodes_def accepted_def Atoi_404 Atoi_403 Atoi_abc Atoi_spaced
      split: if_splits)

section \<open>The status of a response\<close>

lemma doRequest_response:
  assumes "url_parses w u"
    and "Client_Do w \<lparr>req_Method = method, req_URL = u, req_Host = vhost,
           req_Header = (if 0 < length cookieString
                         then [''User-Agent'' \<mapsto> user_agent, ''Cookie'' \<mapsto> cookieString]
                         else [''User-Agent'' \<mapsto> user_agent])\<rparr> = Inr response"
  shows "fst (doRequest w ValidStatusCodes method u vhost cookieString) =
     (if 300 \<le> StatusCode response \<and> \<not> accepted ValidStatusCodes (StatusCode response)
      then Inl (server_error (StatusCode response))
      else (case Body response of None \<Rightarrow> Inl ReadAll_failed | Some b \<Rightarrow> Inr b))"
  using assms by (auto simp: doRequest_def Let_def split: option.splits)

text \<open>
  C4. The claim is that a received response is a success exactly when its status is 2xx or in
  the accepted list. doRequest refuses a status only when it is 300 or more and not in the
  list (\<open>doRequest_response\<close>), so a status below 200 is a success too: a response
  \<open>101 Switching Protocols\<close> with an empty list gives back its body, and performTest prints a
  line for it.
\<close>

theorem switching_protocols_accepted:
  "doRequest \<lparr>url_parses = (\<lambda>u. True),
              Client_Do = (\<lambda>req. Inr \<lparr>StatusCode = 101, Body = Some body\<rparr>)\<rparr>
     Map.empty method u vhost [] =
   (Inr body, [\<lparr>req_Method = method, req_URL = u, req_Host = vhost,
                req_Header = [''User-Agent'' \<mapsto> user_agent]\<rparr>])"
  by (simp add: doRequest_def accepted_def)

section \<open>The request of a probe\<close>

lemma doRequest_sent:
  "snd (doRequest w ValidStatusCodes method u vhost cookieString) =
     (if url_parses w u
      then [\<lparr>req_Method = method, req_URL = u, req_Host = vhost,
              req_Header = (if 0 < length cookieString
                            then [''User-Agent'' \<mapsto> user_agent, ''Cookie'' \<mapsto> cookieString]
                            else [''User-Agent'' \<mapsto> user_agent])\<rparr>]
      else [])"
  by (auto simp: doRequest_def Let_def split: sum.splits option.splits)

lemma performTest_sent:
  "snd (snd (performTest w ValidStatusCodes originalBody u comparator address cookieString)) =
     snd (doRequest w ValidStatusCodes ''GET'' (URL_String (u\<lparr>Host := address\<rparr>)) (Host u) cookieString)"
  by (simp add: performTest_def Let_def split: prod.splits sum.splits)

text \<open>
  C8. For each candidate address, in the order of the addresses: when the URL text parses,
  the probe hands exactly one request to \<open>Client.Do\<close>, a GET whose URL is the target's URL with
  the candidate address in place of the host and whose \<open>Host\<close> is the host of the target as
  main parsed it; otherwise it sends none. Each goroutine gets its own copy of \<open>*u\<close>, so the
  host one probe writes into its copy is not seen by another: every probe sends the host of
  the original target.
\<close>

theorem probe_keeps_virtual_host:
  "map (\<lambda>r. snd (snd r))
     (main_probes w ValidStatusCodes originalBody u comparator addresses cookieString) =
   map (\<lambda>address.
          if url_parses w (Scheme u @ ''://'' @ address @ Path u @
                           (if RawQuery u = [] then [] else ''?'' @ RawQuery u))
          then [\<lparr>req_Method = ''GET'',
                  req_URL = Scheme u @ ''://'' @ address @ Path u @
                            (if RawQuery u = [] then [] else ''?'' @ RawQuery u),
                  req_Host = Host u,
                  req_Header = (if 0 < length cookieString
                                then [''User-Agent'' \<mapsto> user_agent, ''Cookie'' \<mapsto> cookieString]
                                else [''User-Agent'' \<mapsto> user_agent])\<rparr>]
          else [])
     addresses"
  by (simp add: main_probes_def performTest_sent doRequest_sent URL_String_def)

section \<open>The output of a run\<close>

lemma performTest_output:
  "fst (performTest w ValidStatusCodes originalBody u comparator address cookieString) =
     (case fst (doRequest w ValidStatusCodes ''GET'' (URL_String (u\<lparr>Host := address\<rparr>)) (Host u)
                  cookieString) of
        Inl err \<Rightarrow> []
      | Inr checkedBody \<Rightarrow> [(address, comparator checkedBody originalBody * 100)])"
  by (simp add: performTest_def Let_def split: prod.splits sum.splits)






lemma doRequest_failures:
  assumes "url_parses w u"
  shows "Client_Do w \<lparr>req_Method = method, req_URL = u, req_Host = vhost,
           req_Header = (if 0 < length cookieString
                         then [''User-Agent'' \<mapsto> user_agent, ''Cookie'' \<mapsto> cookieString]
                         else [''User-Agent'' \<mapsto> user_agent])\<rparr> = Inl e \<Longrightarrow>
           fst (doRequest w ValidStatusCodes method u vhost cookieString) = Inl (Do_failed e)"
    and "Client_Do w \<lparr>req_Method = method, req_URL = u, req_Host = vhost,
           req_Header = (if 0 < length cookieString
                         then [''User-Agent'' \<mapsto> user_agent, ''Cookie'' \<mapsto> cookieString]
                         else [''User-Agent'' \<mapsto> user_agent])\<rparr> = Inr response \<Longrightarrow>
         300 \<le> StatusCode response \<Longrightarrow>
         \<not> accepted ValidStatusCodes (StatusCode response) \<Longrightarrow>
           fst (doRequest w ValidStatusCodes method u vhost cookieString) =
             Inl (server_error (StatusCode response))"
    and "\<not> url_parses w u' \<Longrightarrow>
           fst (doRequest w ValidStatusCodes method u' vhost cookieString) = Inl NewRequest_failed"
  using assms by (auto simp: doRequest_def Let_def)

lemma example_probe:
  "fst (doRequest example_world Map.empty ''GET'' (URL_String (example_url\<lparr>Host := ''10.0.0.1''\<rparr>))
     (Host example_url) []) = Inr ''origin''"
  "fst (doRequest example_world Map.empty ''GET'' (URL_String (example_url\<lparr>Host := ''10.0.0.2''\<rparr>))
     (Host example_url) []) = Inl (server_error 403)"
  "fst (doRequest example_world Map.empty ''GET'' (URL_String (example_url\<lparr>Host := ''10.0.0.3''\<rparr>))
     (Host example_url) []) = Inl (Do_failed Transport_failure)"
  "fst (doRequest example_world Map.empty ''GET'' (URL_String (example_url\<lparr>Host := ''10.0.0.4''\<rparr>))
     (Host example_url) []) = Inl (Do_failed Timeout)"
  by (simp_all add: doRequest_def example_world_def example_url_def URL_String_def accepted_def)



lemma example_run:
  "printed (main_probes example_world Map.empty ''origin'' example_url same_body
     [''10.0.0.1'', ''10.0.0.2'', ''10.0.0.3'', ''10.0.0.4''] []) = {#(''10.0.0.1'', 100)#}"
  by (simp add: printed_def main_probes_def performTest_output example_probe same_body_def)

lemma example_requests:
  "map (\<lambda>r. snd (snd r))
     (main_probes example_world Map.empty ''origin'' example_url same_body
        [''10.0.0.1'', ''10.0.0.2''] []) =
   [[\<lparr>req_Method = ''GET'', req_URL = ''https://10.0.0.1/'', req_Host = ''example.com'',
      req_Header = [''User-Agent'' \<mapsto> user_agent]\<rparr>],
    [\<lparr>req_Method = ''GET'', req_URL = ''https://10.0.0.2/'', req_Host = ''example.com'',
      req_Header = [''User-Agent'' \<mapsto> user_agent]\<rparr>]]"
  by (simp add: main_probes_def performTest_sent doRequest_sent URL_String_def example_world_def
      example_url_def)

section \<open>The similarity of a body with itself\<close>

lemma ngrams_length: "n \<le> length x \<Longrightarrow> length (ngrams n x) = Suc (length x - n)"
  by (simp add: ngrams_def)

lemma score_empty: "score [] [] = 0"
  by (simp add: score_def ngrams_def)

text \<open>
  C7, counterexample. The claim is that \<open>score x x = 1\<close> for every text that is not empty,
  the texts shorter than 8 included. By the specification's own rule a text shorter than 8
  has no 8-gram, and two bodies without 8-grams have similarity 0: \<open>abc\<close> scores 0 against
  itself.
\<close>

theorem score_short_text: "''abc'' \<noteq> [] \<and> score ''abc'' ''abc'' = 0 \<and> score ''abc'' ''abc'' \<noteq> 1"
  by (simp add: score_def ngrams_def)

text \<open>
  C7, as amended. For every text \<open>x\<close> of at least 8 characters, \<open>score x x = 1\<close>.
\<close>

theorem score_self:
  assumes "8 \<le> length x"
  shows "score x x = 1"
proof -
  have n: "length (ngrams 8 x) = Suc (length x - 8)" using assms by (rule ngrams_length)
  then have "ngrams 8 x \<noteq> []" by auto
  with n show ?thesis by (simp add: score_def Let_def)
qed

text \<open>
  C7, witness: the text \<open>AAAAAAAAAA\<close> of ten characters.
\<close>

theorem score_self_witness:
  "8 \<le> length ''AAAAAAAAAA'' \<and> score ''AAAAAAAAAA'' ''AAAAAAAAAA'' = 1"
proof -
  have h: "8 \<le> length ''AAAAAAAAAA''" by simp
  from score_self [OF h] h show ?thesis by simp
qed

end
